theory Spec2Isabelle
  imports Main
begin

section \<open>Data model of \<open>src/App.jsx\<close>\<close>

text \<open>
  The component \<open>App\<close> keeps two pieces of state (\<open>useState\<close>, lines 46-47): the list
  \<open>files\<close> of tracked entries and the phase \<open>appState\<close>. Every handler replaces one
  or both of them as a whole. The handlers are modelled as functions from the state a
  handler closes over to the state it leaves.
\<close>

text \<open>The bytes of a blob. The code never inspects them.\<close>

type_synonym blob = "nat list"

text \<open>
  A browser \<open>File\<close> as the upload hands it over: the handlers read \<open>name\<close>,
  \<open>lastModified\<close> (an integral number of milliseconds) and \<open>type\<close> (the MIME type).
\<close>

record upload_file =
  name :: string
  lastModified :: int
  mime_type :: string
  content :: blob

text \<open>
  The \<open>File\<close> built at line 85, \<open>new File([compressedFile], newName, {type: ...})\<close>.
  Its \<open>lastModified\<close> is the wall clock at construction and is read nowhere; it is left
  out.
\<close>

record result_file =
  result_name :: string
  result_type :: string
  result_content :: blob

text \<open>Line 56: \<open>// pending, converting, converted, error\<close>.\<close>

datatype status = Pending | Converting | Converted | Error

text \<open>Line 47: \<open>// upload, managing, converted\<close>.\<close>

datatype phase = Upload | Managing | ConvertedPhase

text \<open>
  The object literal of lines 50-58. \<open>originalType\<close> is \<open>file.type.split('/')[1]\<close>,
  which is \<open>undefined\<close> (here \<open>None\<close>) when the MIME type has no \<open>/\<close>. \<open>convertedFile\<close>
  is \<open>null\<close> (here \<open>None\<close>) or a file.
\<close>

record entry =
  entry_id :: string
  originalFile :: upload_file
  originalName :: string
  originalType :: "string option"
  targetType :: string
  status :: status
  convertedFile :: "result_file option"

record state =
  files :: "entry list"
  appState :: phase

text \<open>Lines 46-47: \<open>useState([])\<close> and \<open>useState('upload')\<close>.\<close>

definition initial_state :: state where
  "initial_state = \<lparr>files = [], appState = Upload\<rparr>"

section \<open>String primitives of the language\<close>

text \<open>
  Strings are lists of characters. The handlers join strings, look for the one-character
  strings \<open>.\<close> and \<open>/\<close>, and cut at the index found; none of this depends on how a
  character outside ASCII is divided into code units.
\<close>

text \<open>
  A number inside a template literal is rendered in decimal. \<open>show_nat\<close> renders an
  array index, \<open>show_int\<close> an integral \<open>lastModified\<close> (exact below \<open>2^53\<close>, where
  every integer is a JavaScript number).
\<close>

definition digit_char :: "nat \<Rightarrow> char" where
  "digit_char d = ''0123456789'' ! d"

function show_nat :: "nat \<Rightarrow> string" where
  "show_nat n = (if n < 10 then [digit_char n] else show_nat (n div 10) @ [digit_char (n mod 10)])"
  by pat_completeness auto
termination
  by (relation "measure id") auto

declare show_nat.simps [simp del]

definition show_int :: "int \<Rightarrow> string" where
  "show_int i = (if i < 0 then CHR ''-'' # show_nat (nat (- i)) else show_nat (nat i))"

text \<open>
  \<open>s.lastIndexOf(c)\<close> for a one-character search string: the index of the last
  occurrence, or \<open>-1\<close>. The scan keeps the latest index seen.
\<close>

fun lastIndexOf_from :: "char \<Rightarrow> string \<Rightarrow> int \<Rightarrow> int \<Rightarrow> int" where
  "lastIndexOf_from c [] i found = found"
| "lastIndexOf_from c (x # xs) i found = lastIndexOf_from c xs (i + 1) (if x = c then i else found)"

definition lastIndexOf :: "string \<Rightarrow> char \<Rightarrow> int" where
  "lastIndexOf s c = lastIndexOf_from c s 0 (- 1)"

text \<open>
  \<open>s.substring(start, end)\<close>: both arguments are clamped to \<open>[0, length]\<close> and swapped
  when \<open>start > end\<close>; a negative argument counts as \<open>0\<close>.
\<close>

definition substring :: "string \<Rightarrow> int \<Rightarrow> int \<Rightarrow> string" where
  "substring s start end' =
     (let len = int (length s);
          finalStart = min (max start 0) len;
          finalEnd = min (max end' 0) len;
          from = min finalStart finalEnd;
          to = max finalStart finalEnd
      in take (nat (to - from)) (drop (nat from) s))"

text \<open>\<open>s.split(c)\<close> for a one-character separator, and \<open>xs[i]\<close> with \<open>undefined\<close> as \<open>None\<close>.\<close>

fun split_acc :: "char \<Rightarrow> string \<Rightarrow> string \<Rightarrow> string list" where
  "split_acc c acc [] = [rev acc]"
| "split_acc c acc (x # xs) = (if x = c then rev acc # split_acc c [] xs else split_acc c (x # acc) xs)"

definition split :: "string \<Rightarrow> char \<Rightarrow> string list" where
  "split s c = split_acc c [] s"

definition index_opt :: "'a list \<Rightarrow> nat \<Rightarrow> 'a option" where
  "index_opt xs i = (if i < length xs then Some (xs ! i) else None)"

text \<open>\<open>xs.map((x, index) => f(x, index))\<close>, the index counted from \<open>k\<close>.\<close>

fun map_index :: "('a \<Rightarrow> nat \<Rightarrow> 'b) \<Rightarrow> nat \<Rightarrow> 'a list \<Rightarrow> 'b list" where
  "map_index f k [] = []"
| "map_index f k (x # xs) = f x k # map_index f (Suc k) xs"

section \<open>Handlers of the batch\<close>

text \<open>Lines 50-58: the entry made for one accepted file at position \<open>index\<close>.\<close>

definition new_entry :: "upload_file \<Rightarrow> nat \<Rightarrow> entry" where
  "new_entry file index =
     \<lparr>entry_id = name file @ ''-'' @ show_int (lastModified file) @ ''-'' @ show_nat index,
      originalFile = file,
      originalName = name file,
      originalType = index_opt (split (mime_type file) CHR ''/'') 1,
      targetType = ''webp'',
      status = Pending,
      convertedFile = None\<rparr>"

text \<open>Lines 49-61.\<close>

definition handleFilesAccepted :: "upload_file list \<Rightarrow> state \<Rightarrow> state" where
  "handleFilesAccepted acceptedFiles st =
     st\<lparr>files := map_index new_entry 0 acceptedFiles, appState := Managing\<rparr>"

text \<open>Lines 63-65: no test of the entry's status.\<close>

definition handleTargetTypeChange :: "string \<Rightarrow> string \<Rightarrow> state \<Rightarrow> state" where
  "handleTargetTypeChange i newType st =
     st\<lparr>files := map (\<lambda>file. if entry_id file = i then file\<lparr>targetType := newType\<rparr> else file) (files st)\<rparr>"

text \<open>Lines 67-69.\<close>

definition handleApplyToAll :: "string \<Rightarrow> state \<Rightarrow> state" where
  "handleApplyToAll newType st =
     st\<lparr>files := map (\<lambda>file. file\<lparr>targetType := newType\<rparr>) (files st)\<rparr>"

text \<open>Lines 118-121.\<close>

definition handleReset :: "state \<Rightarrow> state" where
  "handleReset st = st\<lparr>files := [], appState := Upload\<rparr>"

section \<open>Conversion\<close>

text \<open>The options object of lines 76-81.\<close>

record compression_options =
  maxSizeMB :: nat
  maxWidthOrHeight :: nat
  useWebWorker :: bool
  mimeType :: string

definition options_for :: "entry \<Rightarrow> compression_options" where
  "options_for file =
     \<lparr>maxSizeMB = 1, maxWidthOrHeight = 1920, useWebWorker = True,
      mimeType = ''image/'' @ targetType file\<rparr>"

text \<open>
  The library \<open>browser-image-compression\<close> is outside the repository. Its answer to one
  call is \<open>Some\<close> bytes when the promise is fulfilled and \<open>None\<close> when it rejects or the
  call throws. Nothing makes two calls with equal arguments answer alike, so a
  \<open>service\<close> also takes the position of the call in dispatch order.
\<close>

type_synonym service = "nat \<Rightarrow> upload_file \<Rightarrow> compression_options \<Rightarrow> blob option"

text \<open>Line 84.\<close>

definition newName :: "entry \<Rightarrow> string" where
  "newName file =
     substring (originalName file) 0 (lastIndexOf (originalName file) CHR ''.'')
       @ ''.'' @ targetType file"

text \<open>
  Lines 75-91, the body of one task: \<open>try\<close> with the awaited call, \<open>catch\<close> for its
  failure. The task closes over \<open>file\<close> as it was when \<open>handleConvert\<close> was called.
\<close>

definition conversionTask :: "(upload_file \<Rightarrow> compression_options \<Rightarrow> blob option) \<Rightarrow> entry \<Rightarrow> entry" where
  "conversionTask imageCompression file =
     (case imageCompression (originalFile file) (options_for file) of
        Some compressedFile \<Rightarrow>
          file\<lparr>status := Converted,
               convertedFile := Some \<lparr>result_name = newName file,
                                       result_type = ''image/'' @ targetType file,
                                       result_content = compressedFile\<rparr>\<rparr>
      | None \<Rightarrow> file\<lparr>status := Error\<rparr>)"

text \<open>Line 74: one task per element of \<open>files\<close>, whatever its status.\<close>

definition conversionPromises :: "service \<Rightarrow> entry list \<Rightarrow> entry list" where
  "conversionPromises srv fs = map_index (\<lambda>file i. conversionTask (srv i) file) 0 fs"

text \<open>
  \<open>Promise.all\<close>: a result array with one slot per promise; a promise that settles
  writes its value into its own slot; the combined promise is fulfilled once every slot
  is written. \<open>order\<close> lists the positions of the tasks in the order in which they
  settle. A position missing from \<open>order\<close> is a task that never settles, and then
  \<open>Promise.all\<close> never does (\<open>None\<close>). The tasks here catch their own failures, so none
  rejects.
\<close>

fun promise_settle :: "'a list \<Rightarrow> nat list \<Rightarrow> 'a option list \<Rightarrow> 'a option list" where
  "promise_settle ps [] slots = slots"
| "promise_settle ps (i # order) slots =
     promise_settle ps order (if i < length ps then slots[i := Some (ps ! i)] else slots)"

definition promise_all :: "'a list \<Rightarrow> nat list \<Rightarrow> 'a list option" where
  "promise_all ps order = those (promise_settle ps order (replicate (length ps) None))"

text \<open>Line 72: what the state is while the tasks are in flight.\<close>

definition handleConvert_dispatched :: "state \<Rightarrow> state" where
  "handleConvert_dispatched st = st\<lparr>files := map (\<lambda>f. f\<lparr>status := Converting\<rparr>) (files st)\<rparr>"

text \<open>
  Lines 71-97 run to the end: \<open>Some\<close> of the state lines 95-96 leave, or \<open>None\<close> when the
  \<open>await\<close> of line 94 never returns. The tasks map over the \<open>files\<close> the handler closed
  over, not over the list line 72 has just set.
\<close>

definition handleConvert :: "service \<Rightarrow> nat list \<Rightarrow> state \<Rightarrow> state option" where
  "handleConvert srv order st =
     (case promise_all (conversionPromises srv (files st)) order of
        None \<Rightarrow> None
      | Some updatedFiles \<Rightarrow> Some (st\<lparr>files := updatedFiles, appState := ConvertedPhase\<rparr>))"

section \<open>Download of the archive\<close>

text \<open>
  Lines 105-116. \<open>zip.file(name, data)\<close> is recorded as the list of its calls, in order;
  what JSZip makes of them is outside the repository, so \<open>generateAsync\<close> is a
  parameter (\<open>None\<close>: the promise rejects and \<open>saveAs\<close> is not called).
\<close>

type_synonym zip = "(string \<times> result_file) list"

fun forEach_zip :: "entry list \<Rightarrow> zip \<Rightarrow> zip" where
  "forEach_zip [] z = z"
| "forEach_zip (file # rest) z =
     forEach_zip rest
       (if status file = Converted
        then (case convertedFile file of
                Some cf \<Rightarrow> z @ [(result_name cf, cf)]
              | None \<Rightarrow> z)
        else z)"

record download =
  zipped :: zip
  saved :: "(blob \<times> string) option"

definition handleDownloadAll :: "(zip \<Rightarrow> blob option) \<Rightarrow> state \<Rightarrow> download" where
  "handleDownloadAll generateAsync st =
     (let z = forEach_zip (files st) []
      in \<lparr>zipped = z,
          saved = map_option (\<lambda>content. (content, ''imagens-convertidas.zip'')) (generateAsync z)\<rparr>)"

section \<open>What the rendered page offers\<close>

text \<open>
  Lines 134 and 150-163: the panel is rendered in the phases \<open>managing\<close> and \<open>converted\<close>,
  and inside it the convert button stands in the \<open>else\<close> branch of
  \<open>appState === 'converted'\<close>.
\<close>

definition convert_button_rendered :: "state \<Rightarrow> bool" where
  "convert_button_rendered st =
     ((appState st = Managing \<or> appState st = ConvertedPhase) \<and> appState st \<noteq> ConvertedPhase)"

text \<open>Lines 175-185: the selector of a row is rendered when the entry is pending.\<close>

definition target_select_rendered :: "state \<Rightarrow> nat \<Rightarrow> bool" where
  "target_select_rendered st k =
     ((appState st = Managing \<or> appState st = ConvertedPhase) \<and> k < length (files st)
        \<and> status (files st ! k) = Pending)"

text \<open>Line 178: the change event of the selector of row \<open>k\<close>, when there is one.\<close>

definition select_onChange :: "nat \<Rightarrow> string \<Rightarrow> state \<Rightarrow> state" where
  "select_onChange k newType st =
     (if target_select_rendered st k
      then handleTargetTypeChange (entry_id (files st ! k)) newType st
      else st)"

section \<open>Sequences of operations\<close>

datatype op =
    CreateBatch "upload_file list"
  | SetTargetFormat string string
  | SetAllTargetFormats string
  | ConvertAll service "nat list"
  | Reset

text \<open>
  One operation run to its end before the next starts. A conversion that never
  resolves leaves the state of line 72.
\<close>

fun exec_op :: "op \<Rightarrow> state \<Rightarrow> state" where
  "exec_op (CreateBatch fs) st = handleFilesAccepted fs st"
| "exec_op (SetTargetFormat i t) st = handleTargetTypeChange i t st"
| "exec_op (SetAllTargetFormats t) st = handleApplyToAll t st"
| "exec_op (ConvertAll srv order) st =
     (case handleConvert srv order st of Some st' \<Rightarrow> st' | None \<Rightarrow> handleConvert_dispatched st)"
| "exec_op Reset st = handleReset st"

fun exec_ops :: "op list \<Rightarrow> state \<Rightarrow> state" where
  "exec_ops [] st = st"
| "exec_ops (x # xs) st = exec_ops xs (exec_op x st)"

text \<open>
  A sequence in which every \<open>ConvertAll\<close> starts in a phase other than \<open>converted\<close>.
\<close>

fun convert_guarded :: "op list \<Rightarrow> state \<Rightarrow> bool" where
  "convert_guarded [] st = True"
| "convert_guarded (ConvertAll srv order # xs) st =
     (appState st \<noteq> ConvertedPhase \<and> convert_guarded xs (exec_op (ConvertAll srv order) st))"
| "convert_guarded (x # xs) st = convert_guarded xs (exec_op x st)"

section \<open>Concrete inputs\<close>

definition a_png :: upload_file where
  "a_png = \<lparr>name = ''a.png'', lastModified = 1700000000000, mime_type = ''image/png'', content = [1]\<rparr>"

definition b_jpg :: upload_file where
  "b_jpg = \<lparr>name = ''b.jpg'', lastModified = 1700000000001, mime_type = ''image/jpeg'', content = [2]\<rparr>"

definition c_png :: upload_file where
  "c_png = \<lparr>name = ''c.png'', lastModified = 1700000000002, mime_type = ''image/png'', content = [3]\<rparr>"

definition readme :: upload_file where
  "readme = \<lparr>name = ''README'', lastModified = 5, mime_type = ''image/png'', content = [4]\<rparr>"

text \<open>A service that returns the source bytes, one that always fails, and one that fails
  on the first call only.\<close>

definition srv_ok :: service where
  "srv_ok i file opts = Some (content file)"

definition srv_fail :: service where
  "srv_fail i file opts = None"

definition srv_first_fails :: service where
  "srv_first_fails i file opts = (if i = 0 then None else Some (content file))"

definition gen_ok :: "zip \<Rightarrow> blob option" where
  "gen_ok z = Some (concat (map (\<lambda>(n, f). result_content f) z))"

definition batch3 :: state where
  "batch3 = handleFilesAccepted [a_png, b_jpg, c_png] initial_state"

text \<open>\<open>batch3\<close> after a conversion in which the first call fails.\<close>

definition batch3_converted :: state where
  "batch3_converted =
     \<lparr>files =
        [\<lparr>entry_id = ''a.png-1700000000000-0'', originalFile = a_png, originalName = ''a.png'',
          originalType = Some ''png'', targetType = ''webp'', status = Error,
          convertedFile = None\<rparr>,
         \<lparr>entry_id = ''b.jpg-1700000000001-1'', originalFile = b_jpg, originalName = ''b.jpg'',
          originalType = Some ''jpeg'', targetType = ''webp'', status = Converted,
          convertedFile = Some \<lparr>result_name = ''b.webp'', result_type = ''image/webp'',
                                  result_content = [2]\<rparr>\<rparr>,
         \<lparr>entry_id = ''c.png-1700000000002-2'', originalFile = c_png, originalName = ''c.png'',
          originalType = Some ''png'', targetType = ''webp'', status = Converted,
          convertedFile = Some \<lparr>result_name = ''c.webp'', result_type = ''image/webp'',
                                  result_content = [3]\<rparr>\<rparr>],
      appState = ConvertedPhase\<rparr>"

definition batch_readme :: state where
  "batch_readme = handleFilesAccepted [readme] initial_state"

text \<open>
  Three images; the second entry's target set to \<open>jpeg\<close>; all targets set to \<open>png\<close>; a
  conversion in which the call for the first entry fails.
\<close>

definition scenario :: "op list" where
  "scenario =
     [CreateBatch [a_png, b_jpg, c_png],
      SetTargetFormat ''b.jpg-1700000000001-1'' ''jpeg'',
      SetAllTargetFormats ''png'',
      ConvertAll srv_first_fails [2, 0, 1]]"

text \<open>One image converted with success, and converted again with a failing call.\<close>

definition convert_twice :: "op list" where
  "convert_twice = [CreateBatch [a_png], ConvertAll srv_ok [0], ConvertAll srv_fail [0]]"

section \<open>Lemmas on the primitives\<close>

lemma length_map_index: "length (map_index f k xs) = length xs"
  by (induction xs arbitrary: k) auto

lemma nth_map_index: "i < length xs \<Longrightarrow> map_index f k xs ! i = f (xs ! i) (k + i)"
proof (induction xs arbitrary: k i)
  case Nil
  then show ?case by simp
next
  case (Cons x xs)
  then show ?case by (cases i) simp_all
qed

lemma length_promise_settle: "length (promise_settle ps order slots) = length slots"
  by (induction ps order slots rule: promise_settle.induct) simp_all

lemma nth_promise_settle:
  "length slots = length ps \<Longrightarrow> i < length ps \<Longrightarrow>
   promise_settle ps order slots ! i = (if i \<in> set order then Some (ps ! i) else slots ! i)"
proof (induction ps order slots rule: promise_settle.induct)
  case (1 ps slots)
  then show ?case by simp
next
  case (2 ps j order slots)
  then show ?case by (auto simp: nth_list_update)
qed

lemma those_eq_Some: "those xs = Some ys \<longleftrightarrow> xs = map Some ys"
proof (induction xs arbitrary: ys)
  case Nil
  then show ?case by auto
next
  case (Cons x xs)
  show ?case
  proof (cases x)
    case None
    then show ?thesis by auto
  next
    case (Some z)
    have "those (x # xs) = Some ys \<longleftrightarrow> (\<exists>zs. those xs = Some zs \<and> ys = z # zs)"
      using Some by (cases "those xs") auto
    also have "\<dots> \<longleftrightarrow> (\<exists>zs. xs = map Some zs \<and> ys = z # zs)"
      using Cons.IH by simp
    also have "\<dots> \<longleftrightarrow> x # xs = map Some ys"
      using Some by (cases ys) auto
    finally show ?thesis .
  qed
qed

lemma promise_all_eq:
  "promise_all ps order = (if {..<length ps} \<subseteq> set order then Some ps else None)"
proof (cases "{..<length ps} \<subseteq> set order")
  case True
  have "promise_settle ps order (replicate (length ps) None) = map Some ps"
    using True by (intro nth_equalityI) (auto simp: length_promise_settle nth_promise_settle)
  then show ?thesis using True by (simp add: promise_all_def those_eq_Some)
next
  case False
  then obtain i where i: "i < length ps" "i \<notin> set order" by auto
  have "promise_settle ps order (replicate (length ps) None) ! i = None"
    using i by (simp add: nth_promise_settle)
  then have "\<And>ys. promise_settle ps order (replicate (length ps) None) \<noteq> map Some ys"
    using i by (metis length_map length_promise_settle length_replicate nth_map option.distinct(1))
  then have "those (promise_settle ps order (replicate (length ps) None)) = None"
    by (metis those_eq_Some not_Some_eq)
  then show ?thesis using False by (simp add: promise_all_def)
qed

lemma conversionTask_status:
  "status (conversionTask ic file) = (if ic (originalFile file) (options_for file) = None then Error else Converted)"
  by (simp add: conversionTask_def split: option.splits)

lemma conversionTask_convertedFile:
  "convertedFile (conversionTask ic file) =
     (case ic (originalFile file) (options_for file) of
        None \<Rightarrow> convertedFile file
      | Some b \<Rightarrow> Some \<lparr>result_name = newName file, result_type = ''image/'' @ targetType file,
                        result_content = b\<rparr>)"
  by (simp add: conversionTask_def split: option.splits)

lemma conversionTask_keeps:
  "entry_id (conversionTask ic file) = entry_id file"
  "originalName (conversionTask ic file) = originalName file"
  "originalFile (conversionTask ic file) = originalFile file"
  "originalType (conversionTask ic file) = originalType file"
  "targetType (conversionTask ic file) = targetType file"
  by (simp_all add: conversionTask_def split: option.splits)

lemma length_conversionPromises: "length (conversionPromises srv fs) = length fs"
  by (simp add: conversionPromises_def length_map_index)

lemma nth_conversionPromises:
  "k < length fs \<Longrightarrow> conversionPromises srv fs ! k = conversionTask (srv k) (fs ! k)"
  by (simp add: conversionPromises_def nth_map_index)

lemma handleConvert_eq:
  "handleConvert srv order st =
     (if {..<length (files st)} \<subseteq> set order
      then Some \<lparr>files = conversionPromises srv (files st), appState = ConvertedPhase\<rparr>
      else None)"
  by (simp add: handleConvert_def promise_all_eq length_conversionPromises)

lemma handleConvert_SomeD:
  assumes "handleConvert srv order st = Some st'"
  shows "{..<length (files st)} \<subseteq> set order"
    and "files st' = conversionPromises srv (files st)"
    and "appState st' = ConvertedPhase"
  using assms by (auto simp: handleConvert_eq split: if_splits)

section \<open>The concrete inputs, evaluated\<close>

lemmas string_defs = show_nat.simps show_int_def digit_char_def lastIndexOf_def substring_def split_def index_opt_def

lemmas input_defs = a_png_def b_jpg_def c_png_def readme_def srv_ok_def srv_fail_def
  srv_first_fails_def gen_ok_def

lemma batch3_files: "files batch3 = 
  [\<lparr>entry_id = ''a.png-1700000000000-0'', originalFile = a_png, originalName = ''a.png'', originalType = Some ''png'', targetType = ''webp'', status = Pending, convertedFile = None\<rparr>,
   \<lparr>entry_id = ''b.jpg-1700000000001-1'', originalFile = b_jpg, originalName = ''b.jpg'', originalType = Some ''jpeg'', targetType = ''webp'', status = Pending, convertedFile = None\<rparr>,
   \<lparr>entry_id = ''c.png-1700000000002-2'', originalFile = c_png, originalName = ''c.png'', originalType = Some ''png'', targetType = ''webp'', status = Pending, convertedFile = None\<rparr>]"
  by (simp add: batch3_def handleFilesAccepted_def new_entry_def string_defs a_png_def b_jpg_def c_png_def)

lemma batch3_settles:
  "{..<length (files batch3)} \<subseteq> set [2, 0, 1]"
  "{..<length (files batch3)} \<subseteq> set [0, 1, 2]"
  by (auto simp: batch3_files less_Suc_eq numeral_2_eq_2)

lemma batch3_convert:
  "handleConvert srv_first_fails [2, 0, 1] batch3 = Some batch3_converted"
  unfolding handleConvert_eq using batch3_settles(1)
  by (simp add: batch3_files conversionPromises_def conversionTask_def
      options_for_def newName_def string_defs input_defs batch3_converted_def)

section \<open>Conversion of the whole batch\<close>

text \<open>
  Claim C3. Once \<open>handleConvert\<close> has resolved, the batch has as many entries as before,
  the entry at every position is the result of the task run on the entry that stood
  there (whatever its status was), and every entry has status \<open>converted\<close> or \<open>error\<close>:
  none is \<open>pending\<close> or \<open>converting\<close>.
\<close>

theorem convertAll_settles_every_entry:
  assumes "handleConvert srv order st = Some st'"
  shows "length (files st') = length (files st)
       \<and> (\<forall>k<length (files st). files st' ! k = conversionTask (srv k) (files st ! k))
       \<and> (\<forall>e\<in>set (files st'). (status e = Converted \<or> status e = Error)
                                  \<and> status e \<noteq> Pending \<and> status e \<noteq> Converting)"
proof -
  have fs: "files st' = conversionPromises srv (files st)"
    using assms by (rule handleConvert_SomeD)
  have len: "length (files st') = length (files st)"
    by (simp add: fs length_conversionPromises)
  have nth: "\<forall>k<length (files st). files st' ! k = conversionTask (srv k) (files st ! k)"
    by (simp add: fs nth_conversionPromises)
  have "(status e = Converted \<or> status e = Error) \<and> status e \<noteq> Pending \<and> status e \<noteq> Converting"
    if "e \<in> set (files st')" for e
  proof -
    from that obtain k where k: "k < length (files st')" "e = files st' ! k"
      by (auto simp: in_set_conv_nth)
    then have "e = conversionTask (srv k) (files st ! k)"
      using nth len by simp
    then show ?thesis by (simp add: conversionTask_status)
  qed
  with len nth show ?thesis by blast
qed

text \<open>The batch of three files, the first call failing, the tasks settling in the order 2, 0, 1.\<close>

theorem convertAll_settles_every_entry_witness:
  "handleConvert srv_first_fails [2, 0, 1] batch3 = Some batch3_converted
   \<and> map status (files batch3_converted) = [Error, Converted, Converted]
   \<and> list_all (\<lambda>e. status e \<noteq> Pending \<and> status e \<noteq> Converting) (files batch3_converted)"
proof -
  have "list_all (\<lambda>e. status e \<noteq> Pending \<and> status e \<noteq> Converting) (files batch3_converted)"
    using convertAll_settles_every_entry [OF batch3_convert] by (simp add: list_all_iff)
  then show ?thesis
    using batch3_convert by (simp add: batch3_converted_def)
qed

text \<open>
  Claim C4. When every task settles and the call for entry \<open>k\<close> fails, \<open>handleConvert\<close>
  resolves and reaches the phase \<open>converted\<close>; entry \<open>k\<close> has status \<open>error\<close>; an entry
  has status \<open>error\<close> exactly when its own call failed; and with any other service
  that answers every other call alike (so also one whose call \<open>k\<close> succeeds), every
  other entry comes out the same.
\<close>

theorem convertAll_isolates_failure:
  assumes settle: "{..<length (files st)} \<subseteq> set order"
    and k: "k < length (files st)"
    and fails: "srv k (originalFile (files st ! k)) (options_for (files st ! k)) = None"
    and others: "\<forall>j. j \<noteq> k \<longrightarrow> srv' j = srv j"
  shows "\<exists>st1 st2. handleConvert srv order st = Some st1
           \<and> handleConvert srv' order st = Some st2
           \<and> appState st1 = ConvertedPhase
           \<and> length (files st1) = length (files st)
           \<and> status (files st1 ! k) = Error
           \<and> (\<forall>j<length (files st). (status (files st1 ! j) = Error) =
                  (srv j (originalFile (files st ! j)) (options_for (files st ! j)) = None))
           \<and> (\<forall>j<length (files st). j \<noteq> k \<longrightarrow> files st1 ! j = files st2 ! j)"
proof -
  define st1 where "st1 = \<lparr>files = conversionPromises srv (files st), appState = ConvertedPhase\<rparr>"
  define st2 where "st2 = \<lparr>files = conversionPromises srv' (files st), appState = ConvertedPhase\<rparr>"
  have r1: "handleConvert srv order st = Some st1"
    using settle by (simp add: handleConvert_eq st1_def)
  have r2: "handleConvert srv' order st = Some st2"
    using settle by (simp add: handleConvert_eq st2_def)
  have ph: "appState st1 = ConvertedPhase"
    by (simp add: st1_def)
  have len: "length (files st1) = length (files st)"
    by (simp add: st1_def length_conversionPromises)
  have err: "status (files st1 ! k) = Error"
    using k fails by (simp add: st1_def nth_conversionPromises conversionTask_status)
  have exact: "\<forall>j<length (files st). (status (files st1 ! j) = Error) =
                  (srv j (originalFile (files st ! j)) (options_for (files st ! j)) = None)"
    by (simp add: st1_def nth_conversionPromises conversionTask_status)
  have sib: "\<forall>j<length (files st). j \<noteq> k \<longrightarrow> files st1 ! j = files st2 ! j"
    using others by (simp add: st1_def st2_def nth_conversionPromises)
  from r1 r2 ph len err exact sib show ?thesis by blast
qed

text \<open>The first call fails under \<open>srv_first_fails\<close> and succeeds under \<open>srv_ok\<close>.\<close>

theorem convertAll_isolates_failure_witness:
  "handleConvert srv_first_fails [2, 0, 1] batch3 = Some batch3_converted
   \<and> status (files batch3_converted ! 0) = Error
   \<and> map_option (\<lambda>st2. files st2 ! 1) (handleConvert srv_ok [2, 0, 1] batch3)
       = Some (files batch3_converted ! 1)
   \<and> map_option (\<lambda>st2. files st2 ! 2) (handleConvert srv_ok [2, 0, 1] batch3)
       = Some (files batch3_converted ! 2)"
proof -
  note settle = batch3_settles(1)
  have k: "0 < length (files batch3)"
    by (simp add: batch3_files)
  have fails: "srv_first_fails 0 (originalFile (files batch3 ! 0)) (options_for (files batch3 ! 0)) = None"
    by (simp add: srv_first_fails_def)
  have others: "\<forall>j. j \<noteq> 0 \<longrightarrow> srv_ok j = srv_first_fails j"
    by (simp add: srv_ok_def srv_first_fails_def fun_eq_iff)
  from convertAll_isolates_failure [OF settle k fails others]
  obtain st1 st2 where r1: "handleConvert srv_first_fails [2, 0, 1] batch3 = Some st1"
    and r2: "handleConvert srv_ok [2, 0, 1] batch3 = Some st2"
    and err: "status (files st1 ! 0) = Error"
    and sib: "\<forall>j<length (files batch3). j \<noteq> 0 \<longrightarrow> files st1 ! j = files st2 ! j"
    by blast
  have st1: "st1 = batch3_converted"
    using r1 batch3_convert by simp
  have "files st1 ! 1 = files st2 ! 1" "files st1 ! 2 = files st2 ! 2"
    using sib by (simp_all add: batch3_files)
  with r1 r2 err st1 show ?thesis by simp
qed

text \<open>
  Claim C5. Once \<open>handleConvert\<close> has resolved, the batch has the same length, the same
  ids and the same original names at the same positions as before the call, and every
  completion order in which all tasks settle leads to the same state.
\<close>

theorem convertAll_preserves_order:
  assumes "handleConvert srv order st = Some st'"
  shows "length (files st') = length (files st)
       \<and> map entry_id (files st') = map entry_id (files st)
       \<and> map originalName (files st') = map originalName (files st)
       \<and> (\<forall>order'. {..<length (files st)} \<subseteq> set order' \<longrightarrow> handleConvert srv order' st = Some st')"
proof -
  have fs: "files st' = conversionPromises srv (files st)"
    using assms by (rule handleConvert_SomeD)
  have len: "length (files st') = length (files st)"
    by (simp add: fs length_conversionPromises)
  have ids: "map entry_id (files st') = map entry_id (files st)"
    by (rule nth_equalityI) (simp_all add: len fs nth_conversionPromises conversionTask_keeps length_conversionPromises)
  have names: "map originalName (files st') = map originalName (files st)"
    by (rule nth_equalityI) (simp_all add: len fs nth_conversionPromises conversionTask_keeps length_conversionPromises)
  have "handleConvert srv order' st = Some st'" if "{..<length (files st)} \<subseteq> set order'" for order'
    using that assms by (simp add: handleConvert_eq split: if_splits)
  with len ids names show ?thesis by blast
qed

text \<open>Two completion orders of the batch of three files.\<close>

theorem convertAll_preserves_order_witness:
  "handleConvert srv_first_fails [2, 0, 1] batch3 = Some batch3_converted
   \<and> handleConvert srv_first_fails [0, 1, 2] batch3 = Some batch3_converted
   \<and> map entry_id (files batch3_converted) = map entry_id (files batch3)
   \<and> map originalName (files batch3_converted) = [''a.png'', ''b.jpg'', ''c.png'']"
proof -
  note inst = convertAll_preserves_order [OF batch3_convert]
  from inst batch3_settles(2) have "handleConvert srv_first_fails [0, 1, 2] batch3 = Some batch3_converted"
    by blast
  moreover have "map originalName (files batch3_converted) = [''a.png'', ''b.jpg'', ''c.png'']"
    using inst by (simp add: batch3_files)
  ultimately show ?thesis
    using inst batch3_convert by simp
qed

section \<open>Identifiers\<close>

text \<open>Decimal digits: none is a dash, and different numbers have different renderings.\<close>

lemma digit_cases:
  assumes "d < (10::nat)"
  obtains "d = 0" | "d = 1" | "d = 2" | "d = 3" | "d = 4" | "d = 5" | "d = 6" | "d = 7" | "d = 8" | "d = 9"
proof -
  have "d = 0 \<or> d = 1 \<or> d = 2 \<or> d = 3 \<or> d = 4 \<or> d = 5 \<or> d = 6 \<or> d = 7 \<or> d = 8 \<or> d = 9"
    using assms by presburger
  with that show thesis by blast
qed

lemma digit_char_not_dash: "d < 10 \<Longrightarrow> digit_char d \<noteq> CHR ''-''"
  by (erule digit_cases) (simp_all add: digit_char_def)

lemma digit_char_inj: "d < 10 \<Longrightarrow> e < 10 \<Longrightarrow> digit_char d = digit_char e \<Longrightarrow> d = e"
  by (erule digit_cases; erule digit_cases) (simp_all add: digit_char_def)

lemma show_nat_not_Nil: "show_nat n \<noteq> []"
  by (subst show_nat.simps) simp

lemma show_nat_no_dash: "CHR ''-'' \<notin> set (show_nat n)"
proof (induction n rule: show_nat.induct)
  case (1 n)
  show ?case
  proof (cases "n < 10")
    case True
    then show ?thesis
      using digit_char_not_dash [of n] by (subst show_nat.simps) auto
  next
    case False
    with 1 have "CHR ''-'' \<notin> set (show_nat (n div 10))" by simp
    moreover have "digit_char (n mod 10) \<noteq> CHR ''-''"
      by (rule digit_char_not_dash) simp
    ultimately show ?thesis
      using False by (subst show_nat.simps) auto
  qed
qed

lemma show_nat_inj: "show_nat m = show_nat n \<Longrightarrow> m = n"
proof (induction m arbitrary: n rule: show_nat.induct)
  case (1 m)
  show ?case
  proof (cases "m < 10")
    case m: True
    show ?thesis
    proof (cases "n < 10")
      case True
      with m "1.prems" have "digit_char m = digit_char n"
        by (subst (asm) show_nat.simps, subst (asm) (2) show_nat.simps) simp
      with m True show ?thesis by (rule digit_char_inj)
    next
      case False
      have "length (show_nat m) = 1"
        using m by (subst show_nat.simps) simp
      moreover have "length (show_nat n) = length (show_nat (n div 10)) + 1"
        using False by (subst show_nat.simps) simp
      moreover have "length (show_nat (n div 10)) > 0"
        using show_nat_not_Nil by simp
      ultimately show ?thesis using "1.prems" by simp
    qed
  next
    case m: False
    show ?thesis
    proof (cases "n < 10")
      case True
      have "length (show_nat n) = 1"
        using True by (subst show_nat.simps) simp
      moreover have "length (show_nat m) = length (show_nat (m div 10)) + 1"
        using m by (subst show_nat.simps) simp
      moreover have "length (show_nat (m div 10)) > 0"
        using show_nat_not_Nil by simp
      ultimately show ?thesis using "1.prems" by simp
    next
      case False
      have em: "show_nat m = show_nat (m div 10) @ [digit_char (m mod 10)]"
        using m by (subst show_nat.simps) simp
      have en: "show_nat n = show_nat (n div 10) @ [digit_char (n mod 10)]"
        using False by (subst show_nat.simps) simp
      from em en "1.prems" have a: "show_nat (m div 10) = show_nat (n div 10)"
        and b: "digit_char (m mod 10) = digit_char (n mod 10)"
        by simp_all
      from a have "m div 10 = n div 10"
        using "1.IH" m by simp
      moreover from b have "m mod 10 = n mod 10"
        by (intro digit_char_inj) simp_all
      ultimately show ?thesis
        by (metis div_mult_mod_eq)
    qed
  qed
qed

lemma index_suffix_inj:
  assumes "s @ CHR ''-'' # show_nat i = t @ CHR ''-'' # show_nat j"
  shows "i = j"
proof -
  have seg: "takeWhile (\<lambda>c. c \<noteq> CHR ''-'') (rev (u @ CHR ''-'' # show_nat k)) = rev (show_nat k)" for u k
  proof -
    have "takeWhile (\<lambda>c. c \<noteq> CHR ''-'') (rev (show_nat k) @ CHR ''-'' # rev u)
            = takeWhile (\<lambda>c. c \<noteq> CHR ''-'') (rev (show_nat k))"
      by (rule takeWhile_tail) simp
    also have "\<dots> = rev (show_nat k)"
      using show_nat_no_dash [of k] by (auto simp: takeWhile_eq_all_conv)
    finally show ?thesis by simp
  qed
  from assms have "rev (show_nat i) = rev (show_nat j)"
    using seg [of s i] seg [of t j] by simp
  then show ?thesis by (simp add: show_nat_inj)
qed

lemma new_entry_id_inj:
  "entry_id (new_entry f i) = entry_id (new_entry g j) \<Longrightarrow> i = j"
proof -
  assume "entry_id (new_entry f i) = entry_id (new_entry g j)"
  then have "(name f @ ''-'' @ show_int (lastModified f)) @ CHR ''-'' # show_nat i
           = (name g @ ''-'' @ show_int (lastModified g)) @ CHR ''-'' # show_nat j"
    by (simp add: new_entry_def)
  then show ?thesis by (rule index_suffix_inj)
qed

lemma distinct_new_ids: "distinct (map entry_id (map_index new_entry k fs))"
proof -
  have "i = j" if "i < length fs" "j < length fs"
    "entry_id (map_index new_entry k fs ! i) = entry_id (map_index new_entry k fs ! j)" for i j
  proof -
    from that have "entry_id (new_entry (fs ! i) (k + i)) = entry_id (new_entry (fs ! j) (k + j))"
      by (simp add: nth_map_index)
    then have "k + i = k + j" by (rule new_entry_id_inj)
    then show ?thesis by simp
  qed
  then show ?thesis
    by (auto simp: distinct_conv_nth length_map_index)
qed

lemma ids_handleTargetTypeChange:
  "map entry_id (files (handleTargetTypeChange i t st)) = map entry_id (files st)"
  by (auto simp: handleTargetTypeChange_def)

lemma ids_handleApplyToAll:
  "map entry_id (files (handleApplyToAll t st)) = map entry_id (files st)"
  by (simp add: handleApplyToAll_def comp_def)

lemma ids_conversionPromises:
  "map entry_id (conversionPromises srv fs) = map entry_id fs"
  by (rule nth_equalityI)
     (simp_all add: length_conversionPromises nth_conversionPromises conversionTask_keeps)

lemma ids_ConvertAll:
  "map entry_id (files (exec_op (ConvertAll srv order) st)) = map entry_id (files st)"
  by (simp add: handleConvert_eq handleConvert_dispatched_def ids_conversionPromises comp_def)

lemma distinct_exec_op:
  "distinct (map entry_id (files st)) \<Longrightarrow> distinct (map entry_id (files (exec_op x st)))"
proof (cases x)
  case (CreateBatch fs)
  then show ?thesis by (simp add: handleFilesAccepted_def distinct_new_ids)
next
  case (SetTargetFormat i t)
  assume "distinct (map entry_id (files st))"
  with SetTargetFormat show ?thesis by (simp add: ids_handleTargetTypeChange)
next
  case (SetAllTargetFormats t)
  assume "distinct (map entry_id (files st))"
  with SetAllTargetFormats show ?thesis by (simp add: ids_handleApplyToAll)
next
  case (ConvertAll srv order)
  assume "distinct (map entry_id (files st))"
  with ConvertAll show ?thesis by (simp only: ids_ConvertAll)
next
  case Reset
  then show ?thesis by (simp add: handleReset_def)
qed

lemma distinct_exec_ops:
  "distinct (map entry_id (files st)) \<Longrightarrow> distinct (map entry_id (files (exec_ops xs st)))"
  by (induction xs arbitrary: st) (simp_all add: distinct_exec_op)

text \<open>
  Claim C9. Whatever the accepted files are (equal names, equal modification times,
  dashes and digits inside names), the ids \<open>handleFilesAccepted\<close> assigns are pairwise
  distinct: an id ends in a dash followed by the decimal position, and the decimal
  position has no dash. Changing a target format and converting leave the list of ids
  as it is, so the ids are pairwise distinct in every state any sequence of operations
  reaches.
\<close>

theorem ids_pairwise_distinct:
  "distinct (map entry_id (files (handleFilesAccepted fs st)))
   \<and> map entry_id (files (handleTargetTypeChange i t st)) = map entry_id (files st)
   \<and> map entry_id (files (handleApplyToAll t st)) = map entry_id (files st)
   \<and> map entry_id (files (exec_op (ConvertAll srv order) st)) = map entry_id (files st)
   \<and> distinct (map entry_id (files (exec_ops xs initial_state)))"
proof -
  have "distinct (map entry_id (files (handleFilesAccepted fs st)))"
    by (simp add: handleFilesAccepted_def distinct_new_ids)
  moreover have "distinct (map entry_id (files (exec_ops xs initial_state)))"
    by (rule distinct_exec_ops) (simp add: initial_state_def)
  ultimately show ?thesis
    by (simp only: ids_handleTargetTypeChange ids_handleApplyToAll ids_ConvertAll simp_thms)
qed

section \<open>Creating a batch\<close>

lemma replace_whole_state:
  "(st :: state)\<lparr>files := fs, appState := p\<rparr> = \<lparr>files = fs, appState = p\<rparr>"
  by (cases st) simp

text \<open>
  Claim C8. \<open>handleFilesAccepted\<close> puts the phase to \<open>managing\<close> and replaces the batch,
  whatever it was, by one entry per accepted file in the order of the files; the entry
  at position \<open>k\<close> holds file \<open>k\<close> and its name, is \<open>pending\<close> with target \<open>webp\<close> and no
  converted file, and its id is the name, the modification time and \<open>k\<close>, joined by
  dashes.
\<close>

theorem createBatch_fresh_pending_entries:
  "appState (handleFilesAccepted fs st) = Managing
   \<and> handleFilesAccepted fs st = handleFilesAccepted fs st0
   \<and> length (files (handleFilesAccepted fs st)) = length fs
   \<and> (\<forall>k<length fs.
         originalFile (files (handleFilesAccepted fs st) ! k) = fs ! k
       \<and> originalName (files (handleFilesAccepted fs st) ! k) = name (fs ! k)
       \<and> status (files (handleFilesAccepted fs st) ! k) = Pending
       \<and> targetType (files (handleFilesAccepted fs st) ! k) = ''webp''
       \<and> convertedFile (files (handleFilesAccepted fs st) ! k) = None
       \<and> entry_id (files (handleFilesAccepted fs st) ! k)
           = name (fs ! k) @ ''-'' @ show_int (lastModified (fs ! k)) @ ''-'' @ show_nat k)"
proof -
  have "handleFilesAccepted fs st = handleFilesAccepted fs st0"
    by (simp add: handleFilesAccepted_def replace_whole_state)
  moreover have "files (handleFilesAccepted fs st) ! k = new_entry (fs ! k) k" if "k < length fs" for k
    using that by (simp add: handleFilesAccepted_def nth_map_index)
  ultimately show ?thesis
    by (simp add: new_entry_def) (simp add: handleFilesAccepted_def length_map_index)
qed

text \<open>Two files of equal name and time, accepted while a converted batch is on display.\<close>

theorem createBatch_fresh_pending_entries_witness:
  "handleFilesAccepted [readme, readme] batch3_converted
     = handleFilesAccepted [readme, readme] initial_state
   \<and> appState (handleFilesAccepted [readme, readme] batch3_converted) = Managing
   \<and> length (files (handleFilesAccepted [readme, readme] batch3_converted)) = 2
   \<and> entry_id (files (handleFilesAccepted [readme, readme] batch3_converted) ! 0) = ''README-5-0''
   \<and> entry_id (files (handleFilesAccepted [readme, readme] batch3_converted) ! 1) = ''README-5-1''
   \<and> status (files (handleFilesAccepted [readme, readme] batch3_converted) ! 1) = Pending
   \<and> targetType (files (handleFilesAccepted [readme, readme] batch3_converted) ! 1) = ''webp''
   \<and> convertedFile (files (handleFilesAccepted [readme, readme] batch3_converted) ! 1) = None"
proof -
  let ?fs = "[readme, readme]"
  let ?st = "handleFilesAccepted ?fs batch3_converted"
  note inst = createBatch_fresh_pending_entries [of ?fs batch3_converted initial_state]
  from inst have whole: "?st = handleFilesAccepted ?fs initial_state"
    and ph: "appState ?st = Managing"
    and len: "length (files ?st) = length ?fs"
    by blast+
  from len have len2: "length (files ?st) = 2"
    by simp
  have "0 < length ?fs" by simp
  with inst have "entry_id (files ?st ! 0)
      = name (?fs ! 0) @ ''-'' @ show_int (lastModified (?fs ! 0)) @ ''-'' @ show_nat 0"
    by blast
  then have id0: "entry_id (files ?st ! 0) = ''README-5-0''"
    by (simp add: readme_def string_defs)
  have "1 < length ?fs" by simp
  with inst have "entry_id (files ?st ! 1)
      = name (?fs ! 1) @ ''-'' @ show_int (lastModified (?fs ! 1)) @ ''-'' @ show_nat 1"
    and k1: "status (files ?st ! 1) = Pending" "targetType (files ?st ! 1) = ''webp''"
      "convertedFile (files ?st ! 1) = None"
    by blast+
  then have id1: "entry_id (files ?st ! 1) = ''README-5-1''"
    by (simp add: readme_def string_defs)
  show ?thesis
    by (intro conjI) (rule whole ph len2 id0 id1 k1)+
qed

section \<open>Choosing target formats\<close>

text \<open>
  Claim C7. \<open>handleApplyToAll\<close> gives every entry the new target format without a look at
  its status and changes no other field, nor the phase; after a change of one entry's
  target by \<open>handleTargetTypeChange\<close>, \<open>handleApplyToAll ''png''\<close> leaves every entry,
  that one too, at \<open>png\<close>.
\<close>

theorem applyToAll_sets_every_target:
  "map targetType (files (handleApplyToAll t st)) = replicate (length (files st)) t
   \<and> map entry_id (files (handleApplyToAll t st)) = map entry_id (files st)
   \<and> map originalFile (files (handleApplyToAll t st)) = map originalFile (files st)
   \<and> map originalName (files (handleApplyToAll t st)) = map originalName (files st)
   \<and> map originalType (files (handleApplyToAll t st)) = map originalType (files st)
   \<and> map status (files (handleApplyToAll t st)) = map status (files st)
   \<and> map convertedFile (files (handleApplyToAll t st)) = map convertedFile (files st)
   \<and> appState (handleApplyToAll t st) = appState st
   \<and> map targetType (files (handleApplyToAll ''png'' (handleTargetTypeChange i u st)))
       = replicate (length (files st)) ''png''"
proof -
  have "map targetType (files (handleApplyToAll v s)) = replicate (length (files s)) v" for v s
    by (simp add: handleApplyToAll_def comp_def map_replicate_const)
  moreover have "length (files (handleTargetTypeChange i u st)) = length (files st)"
    by (simp add: handleTargetTypeChange_def)
  ultimately show ?thesis
    by (simp add: handleApplyToAll_def comp_def)
qed

lemma scenario_three_images:
  "map targetType (files (handleTargetTypeChange ''b.jpg-1700000000001-1'' ''jpeg'' batch3))
     = [''webp'', ''jpeg'', ''webp'']"
  "map targetType (files (handleApplyToAll ''png''
       (handleTargetTypeChange ''b.jpg-1700000000001-1'' ''jpeg'' batch3)))
     = [''png'', ''png'', ''png'']"
  by (simp_all add: handleApplyToAll_def handleTargetTypeChange_def batch3_files)

section \<open>The name of a converted file\<close>

lemma lastIndexOf_from_absent:
  "c \<notin> set s \<Longrightarrow> lastIndexOf_from c s i found = found"
  by (induction s arbitrary: i) auto

lemma lastIndexOf_from_append:
  "lastIndexOf_from c (xs @ ys) i found
     = lastIndexOf_from c ys (i + int (length xs)) (lastIndexOf_from c xs i found)"
  by (induction xs arbitrary: i found) (auto simp: algebra_simps)

lemma lastIndexOf_absent: "c \<notin> set s \<Longrightarrow> lastIndexOf s c = - 1"
  by (simp add: lastIndexOf_def lastIndexOf_from_absent)

lemma lastIndexOf_last:
  "c \<notin> set ext \<Longrightarrow> lastIndexOf (stem @ c # ext) c = int (length stem)"
  by (simp add: lastIndexOf_def lastIndexOf_from_append lastIndexOf_from_absent)

text \<open>A name with a dot keeps everything before its last dot.\<close>

lemma newName_dotted:
  assumes "originalName file = stem @ CHR ''.'' # ext" and "CHR ''.'' \<notin> set ext"
  shows "newName file = stem @ ''.'' @ targetType file"
  using assms by (simp add: newName_def lastIndexOf_last substring_def)

text \<open>
  Claim C10. When the original name has no dot, \<open>lastIndexOf\<close> is \<open>-1\<close>, \<open>substring(0, -1)\<close>
  is empty, and a successful conversion names the result a dot followed by the target
  format: nothing of the original name is left.
\<close>

theorem dotless_name_is_dropped:
  assumes "CHR ''.'' \<notin> set (originalName file)"
    and "imageCompression (originalFile file) (options_for file) = Some compressedFile"
  shows "substring (originalName file) 0 (lastIndexOf (originalName file) CHR ''.'') = []
       \<and> newName file = ''.'' @ targetType file
       \<and> status (conversionTask imageCompression file) = Converted
       \<and> convertedFile (conversionTask imageCompression file)
           = Some \<lparr>result_name = ''.'' @ targetType file,
                   result_type = ''image/'' @ targetType file,
                   result_content = compressedFile\<rparr>"
proof -
  have stem: "substring (originalName file) 0 (lastIndexOf (originalName file) CHR ''.'') = []"
    using assms(1) by (simp add: lastIndexOf_absent substring_def)
  then have "newName file = ''.'' @ targetType file"
    by (simp add: newName_def)
  with stem assms(2) show ?thesis
    by (simp add: conversionTask_def)
qed

text \<open>The file \<open>README\<close>, converted to the default \<open>webp\<close>.\<close>

theorem dotless_name_is_dropped_witness:
  "CHR ''.'' \<notin> set (originalName (files batch_readme ! 0))
   \<and> srv_ok 0 (originalFile (files batch_readme ! 0)) (options_for (files batch_readme ! 0)) = Some [4]
   \<and> originalName (files batch_readme ! 0) = ''README''
   \<and> map_option result_name (convertedFile (conversionTask (srv_ok 0) (files batch_readme ! 0)))
       = Some ''.webp''"
proof -
  have e: "files batch_readme ! 0 =
      \<lparr>entry_id = ''README-5-0'', originalFile = readme, originalName = ''README'',
       originalType = Some ''png'', targetType = ''webp'', status = Pending,
       convertedFile = None\<rparr>"
    by (simp add: batch_readme_def handleFilesAccepted_def new_entry_def readme_def string_defs)
  have nodot: "CHR ''.'' \<notin> set (originalName (files batch_readme ! 0))"
    by (simp add: e)
  have ok: "srv_ok 0 (originalFile (files batch_readme ! 0)) (options_for (files batch_readme ! 0)) = Some [4]"
    by (simp add: e srv_ok_def readme_def)
  from dotless_name_is_dropped [of "files batch_readme ! 0" "srv_ok 0" "[4]", OF nodot ok]
  have "map_option result_name (convertedFile (conversionTask (srv_ok 0) (files batch_readme ! 0)))
          = Some (''.'' @ targetType (files batch_readme ! 0))"
    by simp
  then show ?thesis
    using nodot ok by (simp add: e)
qed

section \<open>Changing one entry's target format\<close>

lemma handleTargetTypeChange_absent:
  "i \<notin> entry_id ` set (files st) \<Longrightarrow> handleTargetTypeChange i t st = st"
proof -
  assume "i \<notin> entry_id ` set (files st)"
  then have "map (\<lambda>file. if entry_id file = i then file\<lparr>targetType := t\<rparr> else file) (files st)
               = files st"
    by (intro map_idI) auto
  then show ?thesis by (simp add: handleTargetTypeChange_def)
qed

lemma select_onChange_other_rows:
  assumes "distinct (map entry_id (files st))" and "j < length (files st)" and "j \<noteq> k"
  shows "files (select_onChange k t st) ! j = files st ! j"
proof (cases "target_select_rendered st k")
  case True
  then have k: "k < length (files st)"
    by (simp add: target_select_rendered_def)
  with assms have "entry_id (files st ! j) \<noteq> entry_id (files st ! k)"
    by (simp add: distinct_conv_nth)
  with True assms(2) show ?thesis
    by (simp add: select_onChange_def handleTargetTypeChange_def)
next
  case False
  then show ?thesis by (simp add: select_onChange_def)
qed

lemma select_onChange_not_pending:
  assumes "distinct (map entry_id (files st))" and "j < length (files st)"
    and "status (files st ! j) \<noteq> Pending"
  shows "files (select_onChange k t st) ! j = files st ! j"
proof (cases "j = k")
  case True
  with assms(3) have "\<not> target_select_rendered st k"
    by (simp add: target_select_rendered_def)
  then show ?thesis by (simp add: select_onChange_def)
next
  case False
  with assms(1,2) show ?thesis by (rule select_onChange_other_rows)
qed

text \<open>
  Claim C1, as the code has it. The handler has no test of the status: it gives the
  new target format to every entry whose id is the given one, pending or not, and
  leaves every other field, every other entry and the phase as they are; an id that no
  entry has leaves the state as it is. The restriction to pending entries is in the
  page: the selector of a row is rendered only while the row is pending, so with
  pairwise distinct ids a change event of a selector never touches an entry that is not
  pending.
\<close>

theorem targetTypeChange_has_no_status_test:
  "length (files (handleTargetTypeChange i t st)) = length (files st)
   \<and> appState (handleTargetTypeChange i t st) = appState st
   \<and> (\<forall>k<length (files st).
         files (handleTargetTypeChange i t st) ! k
           = (if entry_id (files st ! k) = i then (files st ! k)\<lparr>targetType := t\<rparr>
              else files st ! k))
   \<and> (i \<notin> entry_id ` set (files st) \<longrightarrow> handleTargetTypeChange i t st = st)
   \<and> (distinct (map entry_id (files st)) \<longrightarrow>
        (\<forall>j<length (files st). status (files st ! j) \<noteq> Pending \<longrightarrow>
           files (select_onChange r t st) ! j = files st ! j))"
proof -
  have "files (handleTargetTypeChange i t st) ! k
          = (if entry_id (files st ! k) = i then (files st ! k)\<lparr>targetType := t\<rparr> else files st ! k)"
    if "k < length (files st)" for k
    using that by (simp add: handleTargetTypeChange_def)
  moreover have "length (files (handleTargetTypeChange i t st)) = length (files st)"
    "appState (handleTargetTypeChange i t st) = appState st"
    by (simp_all add: handleTargetTypeChange_def)
  ultimately show ?thesis
    using handleTargetTypeChange_absent [of i st t] select_onChange_not_pending [of st _ r t]
    by blast
qed

text \<open>
  The batch of three files after its conversion: the handler changes the target of the
  converted second entry; an unknown id changes nothing; the page has no selector for
  the second row, and its change event, were it sent, changes nothing.
\<close>

theorem targetTypeChange_has_no_status_test_witness:
  "status (files batch3_converted ! 1) = Converted
   \<and> files (handleTargetTypeChange ''b.jpg-1700000000001-1'' ''png'' batch3_converted) ! 1
       = (files batch3_converted ! 1)\<lparr>targetType := ''png''\<rparr>
   \<and> files (handleTargetTypeChange ''b.jpg-1700000000001-1'' ''png'' batch3_converted) ! 0
       = files batch3_converted ! 0
   \<and> handleTargetTypeChange ''x.gif-0-7'' ''png'' batch3_converted = batch3_converted
   \<and> files (select_onChange 1 ''png'' batch3_converted) ! 1 = files batch3_converted ! 1"
proof -
  note inst = targetTypeChange_has_no_status_test
    [of "''b.jpg-1700000000001-1''" "''png''" batch3_converted 1]
  note inst' = targetTypeChange_has_no_status_test
    [of "''x.gif-0-7''" "''png''" batch3_converted 1]
  have len: "0 < length (files batch3_converted)" "1 < length (files batch3_converted)"
    by (simp_all add: batch3_converted_def)
  have st: "status (files batch3_converted ! 1) = Converted"
    by (simp add: batch3_converted_def)
  have dist: "distinct (map entry_id (files batch3_converted))"
    by (simp add: batch3_converted_def)
  have absent: "''x.gif-0-7'' \<notin> entry_id ` set (files batch3_converted)"
    by (simp add: batch3_converted_def)
  from inst len(2) have "files (handleTargetTypeChange ''b.jpg-1700000000001-1'' ''png'' batch3_converted) ! 1
      = (if entry_id (files batch3_converted ! 1) = ''b.jpg-1700000000001-1''
         then (files batch3_converted ! 1)\<lparr>targetType := ''png''\<rparr> else files batch3_converted ! 1)"
    by blast
  then have a: "files (handleTargetTypeChange ''b.jpg-1700000000001-1'' ''png'' batch3_converted) ! 1
       = (files batch3_converted ! 1)\<lparr>targetType := ''png''\<rparr>"
    by (simp add: batch3_converted_def)
  from inst len(1) have "files (handleTargetTypeChange ''b.jpg-1700000000001-1'' ''png'' batch3_converted) ! 0
      = (if entry_id (files batch3_converted ! 0) = ''b.jpg-1700000000001-1''
         then (files batch3_converted ! 0)\<lparr>targetType := ''png''\<rparr> else files batch3_converted ! 0)"
    by blast
  then have b: "files (handleTargetTypeChange ''b.jpg-1700000000001-1'' ''png'' batch3_converted) ! 0
       = files batch3_converted ! 0"
    by (simp add: batch3_converted_def)
  from inst' absent have c: "handleTargetTypeChange ''x.gif-0-7'' ''png'' batch3_converted = batch3_converted"
    by blast
  from st have "status (files batch3_converted ! 1) \<noteq> Pending"
    by simp
  with inst dist len(2) have d: "files (select_onChange 1 ''png'' batch3_converted) ! 1 = files batch3_converted ! 1"
    by blast
  show ?thesis
    by (intro conjI) (rule st a b c d)+
qed

text \<open>
  Claim C1 fails as it is stated: the second entry of the converted batch has status
  \<open>converted\<close> and target \<open>webp\<close>, and the handler called with its id sets its target to
  \<open>png\<close>.
\<close>

theorem setTargetFormat_changes_converted_entry:
  "handleConvert srv_first_fails [2, 0, 1] batch3 = Some batch3_converted
   \<and> entry_id (files batch3_converted ! 1) = ''b.jpg-1700000000001-1''
   \<and> status (files batch3_converted ! 1) = Converted
   \<and> targetType (files batch3_converted ! 1) = ''webp''
   \<and> targetType (files (handleTargetTypeChange ''b.jpg-1700000000001-1'' ''png'' batch3_converted) ! 1)
       = ''png''"
  using batch3_convert by (simp add: handleTargetTypeChange_def batch3_converted_def)

section \<open>Converted files and statuses along sequences of operations\<close>

text \<open>The convert button is on the page in the phase \<open>managing\<close> and in no other.\<close>

lemma convert_button_only_when_managing:
  "convert_button_rendered st = (appState st = Managing)"
  by (auto simp: convert_button_rendered_def)

lemma convert_button_guards:
  "convert_button_rendered st \<Longrightarrow> convert_guarded [ConvertAll srv order] st"
  by (simp add: convert_button_rendered_def)

text \<open>
  The invariant: an entry has a converted file exactly when it is \<open>converted\<close>, and
  outside the phase \<open>converted\<close> no entry has a converted file.
\<close>

lemma result_invariant_step:
  assumes inv: "\<forall>e\<in>set (files st). (convertedFile e \<noteq> None) = (status e = Converted)"
    and fresh: "appState st \<noteq> ConvertedPhase \<longrightarrow> (\<forall>e\<in>set (files st). convertedFile e = None)"
    and guard: "convert_guarded [x] st"
  shows "(\<forall>e\<in>set (files (exec_op x st)). (convertedFile e \<noteq> None) = (status e = Converted))
       \<and> (appState (exec_op x st) \<noteq> ConvertedPhase \<longrightarrow>
            (\<forall>e\<in>set (files (exec_op x st)). convertedFile e = None))"
proof (cases x)
  case (CreateBatch fs)
  have "convertedFile e = None \<and> status e = Pending"
    if "e \<in> set (map_index new_entry 0 fs)" for e
  proof -
    from that obtain k where "k < length fs" "e = new_entry (fs ! k) (0 + k)"
      by (auto simp: in_set_conv_nth length_map_index nth_map_index)
    then show ?thesis by (simp add: new_entry_def)
  qed
  with CreateBatch show ?thesis
    by (simp add: handleFilesAccepted_def)
next
  case (SetTargetFormat i t)
  with inv fresh show ?thesis
    by (auto simp: handleTargetTypeChange_def)
next
  case (SetAllTargetFormats t)
  with inv fresh show ?thesis
    by (auto simp: handleApplyToAll_def)
next
  case (ConvertAll srv order)
  with guard have "appState st \<noteq> ConvertedPhase"
    by simp
  with fresh have none: "\<forall>e\<in>set (files st). convertedFile e = None"
    by simp
  show ?thesis
  proof (cases "{..<length (files st)} \<subseteq> set order")
    case True
    have "(convertedFile e \<noteq> None) = (status e = Converted)"
      if "e \<in> set (conversionPromises srv (files st))" for e
    proof -
      from that obtain k where k: "k < length (files st)"
        and e: "e = conversionTask (srv k) (files st ! k)"
        by (auto simp: in_set_conv_nth length_conversionPromises nth_conversionPromises)
      from k none have "convertedFile (files st ! k) = None"
        by simp
      then show ?thesis
        by (simp add: e conversionTask_status conversionTask_convertedFile split: option.splits)
    qed
    with ConvertAll True show ?thesis
      by (simp add: handleConvert_eq)
  next
    case False
    with ConvertAll none show ?thesis
      by (simp add: handleConvert_eq handleConvert_dispatched_def)
  qed
next
  case Reset
  then show ?thesis by (simp add: handleReset_def)
qed

lemma convert_guarded_Cons:
  "convert_guarded (x # xs) st = (convert_guarded [x] st \<and> convert_guarded xs (exec_op x st))"
  by (cases x) simp_all

lemma result_invariant_run:
  assumes "\<forall>e\<in>set (files st). (convertedFile e \<noteq> None) = (status e = Converted)"
    and "appState st \<noteq> ConvertedPhase \<longrightarrow> (\<forall>e\<in>set (files st). convertedFile e = None)"
    and "convert_guarded xs st"
  shows "\<forall>e\<in>set (files (exec_ops xs st)). (convertedFile e \<noteq> None) = (status e = Converted)"
  using assms
proof (induction xs arbitrary: st)
  case Nil
  then show ?case by simp
next
  case (Cons x xs)
  from Cons.prems(3) have g: "convert_guarded [x] st" "convert_guarded xs (exec_op x st)"
    by (simp_all add: convert_guarded_Cons [of x xs])
  from result_invariant_step [OF Cons.prems(1,2) g(1)] g(2)
  have "\<forall>e\<in>set (files (exec_ops xs (exec_op x st))). (convertedFile e \<noteq> None) = (status e = Converted)"
    by (intro Cons.IH) blast+
  then show ?case by simp
qed

text \<open>
  Claim C2, as the code has it. In every state reached from the initial one by a
  sequence of operations in which each conversion starts in a phase other than
  \<open>converted\<close>, every entry has a converted file exactly when its status is
  \<open>converted\<close>.
\<close>

theorem result_iff_converted_when_guarded:
  assumes "convert_guarded xs initial_state"
  shows "\<forall>e\<in>set (files (exec_ops xs initial_state)).
           (convertedFile e \<noteq> None) = (status e = Converted)"
  using assms by (intro result_invariant_run) (simp_all add: initial_state_def)

lemma scenario_managed:
  "handleApplyToAll ''png''
     (handleTargetTypeChange ''b.jpg-1700000000001-1'' ''jpeg''
        (handleFilesAccepted [a_png, b_jpg, c_png] initial_state))
   = \<lparr>files =
        [\<lparr>entry_id = ''a.png-1700000000000-0'', originalFile = a_png, originalName = ''a.png'',
          originalType = Some ''png'', targetType = ''png'', status = Pending,
          convertedFile = None\<rparr>,
         \<lparr>entry_id = ''b.jpg-1700000000001-1'', originalFile = b_jpg, originalName = ''b.jpg'',
          originalType = Some ''jpeg'', targetType = ''png'', status = Pending,
          convertedFile = None\<rparr>,
         \<lparr>entry_id = ''c.png-1700000000002-2'', originalFile = c_png, originalName = ''c.png'',
          originalType = Some ''png'', targetType = ''png'', status = Pending,
          convertedFile = None\<rparr>],
      appState = Managing\<rparr>"
  by (simp add: initial_state_def handleFilesAccepted_def new_entry_def
      handleTargetTypeChange_def handleApplyToAll_def string_defs a_png_def b_jpg_def c_png_def)

lemma scenario_state:
  "exec_ops scenario initial_state =
     \<lparr>files =
        [\<lparr>entry_id = ''a.png-1700000000000-0'', originalFile = a_png, originalName = ''a.png'',
          originalType = Some ''png'', targetType = ''png'', status = Error,
          convertedFile = None\<rparr>,
         \<lparr>entry_id = ''b.jpg-1700000000001-1'', originalFile = b_jpg, originalName = ''b.jpg'',
          originalType = Some ''jpeg'', targetType = ''png'', status = Converted,
          convertedFile = Some \<lparr>result_name = ''b.png'', result_type = ''image/png'',
                                  result_content = [2]\<rparr>\<rparr>,
         \<lparr>entry_id = ''c.png-1700000000002-2'', originalFile = c_png, originalName = ''c.png'',
          originalType = Some ''png'', targetType = ''png'', status = Converted,
          convertedFile = Some \<lparr>result_name = ''c.png'', result_type = ''image/png'',
                                  result_content = [3]\<rparr>\<rparr>],
      appState = ConvertedPhase\<rparr>"
    (is "_ = ?done")
proof -
  let ?managed = "handleApplyToAll ''png''
     (handleTargetTypeChange ''b.jpg-1700000000001-1'' ''jpeg''
        (handleFilesAccepted [a_png, b_jpg, c_png] initial_state))"
  have settles: "{..<length (files ?managed)} \<subseteq> set [2, 0, 1]"
    by (auto simp: scenario_managed less_Suc_eq numeral_2_eq_2)
  have "handleConvert srv_first_fails [2, 0, 1] ?managed = Some ?done"
    using settles unfolding handleConvert_eq scenario_managed
    by (simp add: conversionPromises_def conversionTask_def options_for_def
        newName_def string_defs input_defs)
  then show ?thesis
    by (simp only: scenario_def exec_ops.simps exec_op.simps option.case)
qed

lemma scenario_guarded: "convert_guarded scenario initial_state"
  by (simp add: scenario_def initial_state_def handleFilesAccepted_def handleTargetTypeChange_def
      handleApplyToAll_def)

text \<open>The scenario of three images.\<close>

theorem result_iff_converted_when_guarded_witness:
  "convert_guarded scenario initial_state
   \<and> map status (files (exec_ops scenario initial_state)) = [Error, Converted, Converted]
   \<and> list_all (\<lambda>e. (convertedFile e \<noteq> None) = (status e = Converted))
        (files (exec_ops scenario initial_state))"
proof -
  have "list_all (\<lambda>e. (convertedFile e \<noteq> None) = (status e = Converted))
          (files (exec_ops scenario initial_state))"
    using result_iff_converted_when_guarded [OF scenario_guarded] by (simp only: list_all_iff)
  moreover have "map status (files (exec_ops scenario initial_state)) = [Error, Converted, Converted]"
    by (simp add: scenario_state)
  ultimately show ?thesis
    using scenario_guarded by simp
qed

text \<open>
  Claim C2 fails as it is stated, for any sequence: a second conversion whose call fails
  sets the status to \<open>error\<close> and keeps the converted file of the first conversion.
\<close>

theorem second_conversion_error_keeps_result:
  "status (files (exec_ops convert_twice initial_state) ! 0) = Error
   \<and> convertedFile (files (exec_ops convert_twice initial_state) ! 0)
       = Some \<lparr>result_name = ''a.webp'', result_type = ''image/webp'', result_content = [1]\<rparr>"
  by (simp add: convert_twice_def handleConvert_eq lessThan_Suc initial_state_def
      handleFilesAccepted_def new_entry_def
      conversionPromises_def conversionTask_def options_for_def newName_def
      string_defs input_defs)

section \<open>Download of all converted files\<close>

lemma forEach_zip_eq:
  "forEach_zip fs z =
     z @ map (\<lambda>f. (result_name (the (convertedFile f)), the (convertedFile f)))
           (filter (\<lambda>f. status f = Converted \<and> convertedFile f \<noteq> None) fs)"
  by (induction fs arbitrary: z) (auto split: option.splits)

lemma converted_after_conversionTask:
  "status (conversionTask ic file) = Converted \<Longrightarrow>
     convertedFile (conversionTask ic file) \<noteq> None
   \<and> result_name (the (convertedFile (conversionTask ic file))) = newName (conversionTask ic file)"
  by (auto simp: conversionTask_def newName_def split: option.splits)

lemma converted_after_conversionPromises:
  assumes "e \<in> set (conversionPromises srv fs)" and "status e = Converted"
  shows "convertedFile e \<noteq> None \<and> result_name (the (convertedFile e)) = newName e"
proof -
  from assms(1) obtain k where "k < length fs" "e = conversionTask (srv k) (fs ! k)"
    by (auto simp: in_set_conv_nth length_conversionPromises nth_conversionPromises)
  with assms(2) show ?thesis
    using converted_after_conversionTask [of "srv k" "fs ! k"] by simp
qed

text \<open>
  Claim C6, as the code has it. \<open>handleDownloadAll\<close> hands to the archive, in the order
  of the batch, one pair for each entry that is \<open>converted\<close> and has a converted file,
  and for no other entry (so for no \<open>error\<close> entry); the pair is the converted file under
  the name that file carries. It saves what the archive builder returns under the name
  \<open>imagens-convertidas.zip\<close>. In the state a conversion leaves, the entries handed over
  are all the \<open>converted\<close> ones and the name of each is the part of its original name
  before the last dot, a dot, and its target format.
\<close>

theorem downloadAll_zips_converted_entries:
  "zipped (handleDownloadAll generateAsync st)
     = map (\<lambda>f. (result_name (the (convertedFile f)), the (convertedFile f)))
         (filter (\<lambda>f. status f = Converted \<and> convertedFile f \<noteq> None) (files st))
   \<and> saved (handleDownloadAll generateAsync st)
       = map_option (\<lambda>content. (content, ''imagens-convertidas.zip''))
           (generateAsync (zipped (handleDownloadAll generateAsync st)))
   \<and> (handleConvert srv order st0 = Some st \<longrightarrow>
        zipped (handleDownloadAll generateAsync st)
          = map (\<lambda>f. (newName f, the (convertedFile f)))
              (filter (\<lambda>f. status f = Converted) (files st)))"
proof -
  have z: "zipped (handleDownloadAll generateAsync st)
     = map (\<lambda>f. (result_name (the (convertedFile f)), the (convertedFile f)))
         (filter (\<lambda>f. status f = Converted \<and> convertedFile f \<noteq> None) (files st))"
    by (simp add: handleDownloadAll_def Let_def forEach_zip_eq)
  have s: "saved (handleDownloadAll generateAsync st)
       = map_option (\<lambda>content. (content, ''imagens-convertidas.zip''))
           (generateAsync (zipped (handleDownloadAll generateAsync st)))"
    by (simp add: handleDownloadAll_def Let_def)
  have "zipped (handleDownloadAll generateAsync st)
          = map (\<lambda>f. (newName f, the (convertedFile f)))
              (filter (\<lambda>f. status f = Converted) (files st))"
    if "handleConvert srv order st0 = Some st"
  proof -
    from that have fs: "files st = conversionPromises srv (files st0)"
      by (rule handleConvert_SomeD)
    have "filter (\<lambda>f. status f = Converted \<and> convertedFile f \<noteq> None) (files st)
            = filter (\<lambda>f. status f = Converted) (files st)"
      by (rule filter_cong) (auto simp: fs dest: converted_after_conversionPromises)
    moreover have "map (\<lambda>f. (result_name (the (convertedFile f)), the (convertedFile f)))
                     (filter (\<lambda>f. status f = Converted) (files st))
                 = map (\<lambda>f. (newName f, the (convertedFile f)))
                     (filter (\<lambda>f. status f = Converted) (files st))"
      by (rule map_cong) (auto simp: fs dest: converted_after_conversionPromises)
    ultimately show ?thesis by (simp add: z)
  qed
  with z s show ?thesis by blast
qed

text \<open>
  The scenario of three images: the archive gets \<open>b.png\<close> and \<open>c.png\<close> and not the failed
  \<open>a.png\<close>.
\<close>

theorem downloadAll_zips_converted_entries_witness:
  "handleConvert srv_first_fails [2, 0, 1] batch3 = Some batch3_converted
   \<and> map status (files batch3_converted) = [Error, Converted, Converted]
   \<and> map fst (zipped (handleDownloadAll gen_ok batch3_converted)) = [''b.webp'', ''c.webp'']
   \<and> map fst (zipped (handleDownloadAll gen_ok (exec_ops scenario initial_state)))
       = [''b.png'', ''c.png'']
   \<and> saved (handleDownloadAll gen_ok (exec_ops scenario initial_state))
       = Some ([2, 3], ''imagens-convertidas.zip'')"
proof -
  note inst = downloadAll_zips_converted_entries
    [of gen_ok batch3_converted srv_first_fails "[2, 0, 1]" batch3]
  from inst batch3_convert
  have "zipped (handleDownloadAll gen_ok batch3_converted)
          = map (\<lambda>f. (newName f, the (convertedFile f)))
              (filter (\<lambda>f. status f = Converted) (files batch3_converted))"
    by blast
  then have a: "map fst (zipped (handleDownloadAll gen_ok batch3_converted)) = [''b.webp'', ''c.webp'']"
    by (simp add: batch3_converted_def newName_def string_defs)
  note inst' = downloadAll_zips_converted_entries
    [of gen_ok "exec_ops scenario initial_state" srv_first_fails "[2, 0, 1]" batch3]
  from inst' have z: "zipped (handleDownloadAll gen_ok (exec_ops scenario initial_state))
     = map (\<lambda>f. (result_name (the (convertedFile f)), the (convertedFile f)))
         (filter (\<lambda>f. status f = Converted \<and> convertedFile f \<noteq> None)
            (files (exec_ops scenario initial_state)))"
    and s: "saved (handleDownloadAll gen_ok (exec_ops scenario initial_state))
       = map_option (\<lambda>content. (content, ''imagens-convertidas.zip''))
           (gen_ok (zipped (handleDownloadAll gen_ok (exec_ops scenario initial_state))))"
    by blast+
  from z have b: "map fst (zipped (handleDownloadAll gen_ok (exec_ops scenario initial_state)))
       = [''b.png'', ''c.png'']"
    by (simp add: scenario_state)
  from s z have c: "saved (handleDownloadAll gen_ok (exec_ops scenario initial_state))
       = Some ([2, 3], ''imagens-convertidas.zip'')"
    by (simp add: scenario_state gen_ok_def)
  have d: "map status (files batch3_converted) = [Error, Converted, Converted]"
    by (simp add: batch3_converted_def)
  show ?thesis
    by (intro conjI) (rule batch3_convert a b c d)+
qed

text \<open>
  Claim C6 fails as it is stated. The archive is saved as \<open>imagens-convertidas.zip\<close>,
  which does not begin with \<open>images-converted.\<close>; and after a conversion to \<open>webp\<close>
  followed by \<open>handleApplyToAll ''png''\<close> the second entry has target \<open>png\<close> while its file
  goes into the archive as \<open>b.webp\<close>.
\<close>

theorem downloadAll_name_and_stale_format:
  "map_option snd (saved (handleDownloadAll gen_ok batch3_converted))
     = Some ''imagens-convertidas.zip''
   \<and> take 17 ''imagens-convertidas.zip'' \<noteq> ''images-converted.''
   \<and> map targetType (files (handleApplyToAll ''png'' batch3_converted)) = [''png'', ''png'', ''png'']
   \<and> map fst (zipped (handleDownloadAll gen_ok (handleApplyToAll ''png'' batch3_converted)))
       = [''b.webp'', ''c.webp'']"
  by (simp add: handleDownloadAll_def handleApplyToAll_def batch3_converted_def gen_ok_def)

end
